theory Spec2Isabelle
  imports Main "HOL-Library.Sublist"
begin

section \<open>JavaScript string primitives used by the dispatcher\<close>

text \<open>
  Strings are lists of code units. The model covers the code units U+0000 to U+00FF
  (one \<^typ>\<open>char\<close> each); code units above U+00FF are outside the model.
\<close>

datatype js_error = TypeError

definition lower_unit :: "char \<Rightarrow> char" where
  \<comment> \<open>\<open>String.prototype.toLowerCase\<close> on one code unit: A-Z and the upper-case letters
      of Latin-1 (U+00C0 to U+00DE without U+00D7) move up by 32.\<close>
  "lower_unit c =
     (let n = (of_char c :: nat)
      in if (65 \<le> n \<and> n \<le> 90) \<or> (192 \<le> n \<and> n \<le> 214) \<or> (216 \<le> n \<and> n \<le> 222)
         then char_of (n + 32) else c)"

definition toLowerCase :: "string \<Rightarrow> string" where
  "toLowerCase s = map lower_unit s"

definition is_space :: "char \<Rightarrow> bool" where
  \<comment> \<open>White space and line terminators of ECMAScript below U+0100:
      TAB, LF, VT, FF, CR, SP and NBSP.\<close>
  "is_space c = ((of_char c :: nat) \<in> {9, 10, 11, 12, 13, 32, 160})"

definition trim :: "string \<Rightarrow> string" where
  "trim s = rev (dropWhile is_space (rev (dropWhile is_space s)))"

fun includes_str :: "string \<Rightarrow> string \<Rightarrow> bool" where
  \<comment> \<open>\<open>s.includes(p)\<close>: \<open>p\<close> occurs at some position of \<open>s\<close>.\<close>
  "includes_str [] p = (p = [])"
| "includes_str (c # s) p = (prefix p (c # s) \<or> includes_str s p)"

fun splitAtFirst :: "string \<Rightarrow> string \<Rightarrow> (string \<times> string) option" where
  \<comment> \<open>The text before and the text after the leftmost occurrence of \<open>p\<close> in \<open>s\<close>.\<close>
  "splitAtFirst p [] = (if p = [] then Some ([], []) else None)"
| "splitAtFirst p (c # s) =
     (if prefix p (c # s) then Some ([], drop (length p) (c # s))
      else map_option (\<lambda>(b, a). (c # b, a)) (splitAtFirst p s))"

lemma splitAtFirst_shorter:
  "splitAtFirst p s = Some (b, a) \<Longrightarrow> p \<noteq> [] \<Longrightarrow> length a < length s"
proof (induction s arbitrary: b)
  case Nil
  then show ?case by simp
next
  case (Cons c s)
  show ?case
  proof (cases "prefix p (c # s)")
    case True
    with Cons.prems show ?thesis by (cases p) auto
  next
    case False
    with Cons.prems obtain b' where "splitAtFirst p s = Some (b', a)"
      by (auto split: prod.splits)
    with Cons.IH Cons.prems(2) show ?thesis by fastforce
  qed
qed

function split_str :: "string \<Rightarrow> string \<Rightarrow> string list" where
  \<comment> \<open>\<open>s.split(sep)\<close> with a string separator: an empty separator cuts \<open>s\<close> into its
      code units; otherwise \<open>s\<close> is cut at every occurrence of \<open>sep\<close>, found from
      left to right without overlap.\<close>
  "split_str s sep =
     (if sep = [] then map (\<lambda>c. [c]) s
      else case splitAtFirst sep s of
             None \<Rightarrow> [s]
           | Some (b, a) \<Rightarrow> b # split_str a sep)"
  by pat_completeness auto
termination
  by (relation "measure (\<lambda>(s, sep). length s)") (auto dest: splitAtFirst_shorter)

declare split_str.simps [simp del]

definition at_index :: "'a list \<Rightarrow> nat \<Rightarrow> 'a option" where
  \<comment> \<open>\<open>xs[i]\<close>: \<open>undefined\<close> (here \<open>None\<close>) out of range.\<close>
  "at_index xs i = (if i < length xs then Some (xs ! i) else None)"

definition argumentAfter :: "string \<Rightarrow> string \<Rightarrow> js_error + string" where
  \<comment> \<open>\<open>transcript.split(phrase)[1].trim()\<close>: calling \<open>trim\<close> on \<open>undefined\<close> throws.\<close>
  "argumentAfter transcript phrase =
     (case at_index (split_str transcript phrase) 1 of
        None \<Rightarrow> Inl TypeError
      | Some piece \<Rightarrow> Inr (trim piece))"


section \<open>The command dispatcher (\<open>processCommand\<close> of whisper.js)\<close>

text \<open>
  \<open>getVoiceCommands()\<close> is defined outside the sources at hand; the table of phrases
  and feedback texts it returns is a parameter of the model.
\<close>

record voice_commands =
  startTimer :: string
  startTimerFeedback :: string
  stopTimer :: string
  stopTimerFeedback :: string
  resetTimer :: string
  resetTimerFeedback :: string
  startJog :: string
  startJogFeedback :: string
  stopJog :: string
  stopJogFeedback :: string
  logExercise :: string
  startTimerFor :: string
  addEntry :: string
  addEntryFeedback :: string
  setActualReps :: string
  setActualRepsFeedback :: string
  showProgress :: string
  showArchive :: string
  openSettings :: string
  goHome :: string
  navigationFeedback :: string

text \<open>
  The part of the page that \<open>processCommand\<close> reads: whether the elements with the ids
  \<open>addEntry\<close>, \<open>actualValue\<close> and \<open>reps\<close> exist, and the value of the element
  \<open>type\<close> (\<open>None\<close> when there is no such element).
\<close>

record document =
  addEntryElem :: bool
  typeElem :: "string option"
  actualValueElem :: bool
  repsElem :: bool

text \<open>
  An entry of \<open>complexTasks\<close> or \<open>automationSequences\<close>: a JavaScript object whose
  properties may be absent (\<open>None\<close> is \<open>undefined\<close>).
\<close>

record entry =
  commands :: "string list option"
  command :: "string option"
  primaryCommand :: "string option"
  name :: "string option"

datatype field_id = ActualValueField | RepsField

datatype effect =
    StartTimer
  | StopTimer
  | ResetTimer
  | StartJogging
  | StopJogging
  | HandleSmartExerciseLogging string
  | HandleTimerForDuration string
  | AddBtnClick
  | SetFieldValue field_id string
  | ShowProgressView
  | ShowArchiveView
  | ShowSettingsView
  | HideAllViews
  | ExecuteComplexTask entry
  | ExecuteAutomationSequence entry
  | SpeakFeedback string "string option"

definition truthy :: "string option \<Rightarrow> bool" where
  \<comment> \<open>A string is truthy unless it is empty; \<open>undefined\<close> is falsy.\<close>
  "truthy v = (case v of None \<Rightarrow> False | Some s \<Rightarrow> s \<noteq> [])"

definition searchString :: "string option \<Rightarrow> string" where
  \<comment> \<open>\<open>includes\<close> converts its argument to a string.\<close>
  "searchString v = (case v of None \<Rightarrow> ''undefined'' | Some s \<Rightarrow> s)"

definition findCommand :: "string \<Rightarrow> string list \<Rightarrow> bool" where
  \<comment> \<open>\<open>cmds.find(cmd => transcript.includes(cmd.toLowerCase()))\<close>, read as a condition:
      the phrase found is truthy.\<close>
  "findCommand transcript cmds =
     truthy (find (\<lambda>cmd. includes_str transcript (toLowerCase cmd)) cmds)"

definition taskMatches :: "string \<Rightarrow> entry \<Rightarrow> bool" where
  "taskMatches transcript task =
     (case commands task of
        Some cmds \<Rightarrow> findCommand transcript cmds
      | None \<Rightarrow>
          includes_str transcript
            (case command task of
               Some c \<Rightarrow> if c \<noteq> [] then toLowerCase c else searchString (primaryCommand task)
             | None \<Rightarrow> searchString (primaryCommand task)))"

definition automationMatches :: "string \<Rightarrow> entry \<Rightarrow> js_error + bool" where
  "automationMatches transcript automation =
     (case commands automation of
        Some cmds \<Rightarrow> Inr (findCommand transcript cmds)
      | None \<Rightarrow>
          (case (case command automation of
                   Some c \<Rightarrow> if c \<noteq> [] then Inr (toLowerCase c)
                             else (case name automation of
                                     None \<Rightarrow> Inl TypeError
                                   | Some n \<Rightarrow> Inr (toLowerCase n))
                 | None \<Rightarrow> (case name automation of
                              None \<Rightarrow> Inl TypeError
                            | Some n \<Rightarrow> Inr (toLowerCase n))) of
             Inl e \<Rightarrow> Inl e
           | Inr phrase \<Rightarrow> Inr (includes_str transcript phrase)))"

fun scanComplexTasks :: "string \<Rightarrow> entry list \<Rightarrow> entry option" where
  "scanComplexTasks transcript [] = None"
| "scanComplexTasks transcript (task # rest) =
     (if taskMatches transcript task then Some task
      else scanComplexTasks transcript rest)"

fun scanAutomationSequences :: "string \<Rightarrow> entry list \<Rightarrow> js_error + entry option" where
  "scanAutomationSequences transcript [] = Inr None"
| "scanAutomationSequences transcript (automation # rest) =
     (case automationMatches transcript automation of
        Inl e \<Rightarrow> Inl e
      | Inr True \<Rightarrow> Inr (Some automation)
      | Inr False \<Rightarrow> scanAutomationSequences transcript rest)"

definition notRecognized :: string where
  "notRecognized = ''Command not recognized. Please try again or check your voice settings.''"

definition setReps :: "voice_commands \<Rightarrow> document \<Rightarrow> string \<Rightarrow> js_error + effect list" where
  \<comment> \<open>The branch of \<open>setActualReps\<close>: reading \<open>.value\<close> of a missing element throws.\<close>
  "setReps cmds doc transcript =
     (case argumentAfter transcript (setActualReps cmds) of
        Inl e \<Rightarrow> Inl e
      | Inr repsValue \<Rightarrow>
          (case typeElem doc of
             None \<Rightarrow> Inl TypeError
           | Some type \<Rightarrow>
               (let repsField =
                      (if type = ''reps''
                       then (if actualValueElem doc then Some ActualValueField else None)
                       else if type = ''semi''
                       then (if repsElem doc then Some RepsField else None)
                       else None)
                in case repsField of
                     Some f \<Rightarrow>
                       Inr [SetFieldValue f repsValue,
                            SpeakFeedback (setActualRepsFeedback cmds @ '' '' @ repsValue) None]
                   | None \<Rightarrow> Inr [])))"

definition otherCommands :: "entry list \<Rightarrow> entry list \<Rightarrow> string \<Rightarrow> js_error + effect list" where
  \<comment> \<open>The final \<open>else\<close> branch: complex tasks, then automation sequences.\<close>
  "otherCommands complexTasks automationSequences transcript =
     (case scanComplexTasks transcript complexTasks of
        Some task \<Rightarrow> Inr [ExecuteComplexTask task]
      | None \<Rightarrow>
          (case scanAutomationSequences transcript automationSequences of
             Inl e \<Rightarrow> Inl e
           | Inr (Some automation) \<Rightarrow> Inr [ExecuteAutomationSequence automation]
           | Inr None \<Rightarrow> Inr [SpeakFeedback notRecognized None]))"

definition processCommand ::
  "voice_commands \<Rightarrow> document \<Rightarrow> entry list \<Rightarrow> entry list \<Rightarrow> string
     \<Rightarrow> js_error + effect list" where
  \<comment> \<open>The effects performed, in order; \<open>Inl\<close> when an exception leaves the function
      (every throw of the function comes before its first effect).\<close>
  "processCommand cmds doc complexTasks automationSequences transcript0 =
     (let transcript = toLowerCase transcript0 in
      if includes_str transcript (startTimer cmds) then
        Inr [StartTimer, SpeakFeedback (startTimerFeedback cmds) (Some ''startTimer'')]
      else if includes_str transcript (stopTimer cmds) then
        Inr [StopTimer, SpeakFeedback (stopTimerFeedback cmds) (Some ''stopTimer'')]
      else if includes_str transcript (resetTimer cmds) then
        Inr [ResetTimer, SpeakFeedback (resetTimerFeedback cmds) None]
      else if includes_str transcript (startJog cmds) then
        Inr [StartJogging, SpeakFeedback (startJogFeedback cmds) None]
      else if includes_str transcript (stopJog cmds) then
        Inr [StopJogging, SpeakFeedback (stopJogFeedback cmds) None]
      else if includes_str transcript (logExercise cmds) then
        (case argumentAfter transcript (logExercise cmds) of
           Inl e \<Rightarrow> Inl e
         | Inr exerciseName \<Rightarrow> Inr [HandleSmartExerciseLogging exerciseName])
      else if includes_str transcript (startTimerFor cmds) then
        (case argumentAfter transcript (startTimerFor cmds) of
           Inl e \<Rightarrow> Inl e
         | Inr timeText \<Rightarrow> Inr [HandleTimerForDuration timeText])
      else if includes_str transcript (addEntry cmds) then
        (if addEntryElem doc
         then Inr [AddBtnClick, SpeakFeedback (addEntryFeedback cmds) (Some ''addEntry'')]
         else Inr [])
      else if includes_str transcript (setActualReps cmds) then
        setReps cmds doc transcript
      else if includes_str transcript (showProgress cmds) then
        Inr [ShowProgressView, SpeakFeedback (navigationFeedback cmds @ '' progress view'') None]
      else if includes_str transcript (showArchive cmds) then
        Inr [ShowArchiveView, SpeakFeedback (navigationFeedback cmds @ '' archive view'') None]
      else if includes_str transcript (openSettings cmds) then
        Inr [ShowSettingsView, SpeakFeedback (navigationFeedback cmds @ '' settings'') None]
      else if includes_str transcript (goHome cmds) then
        Inr [HideAllViews, SpeakFeedback (navigationFeedback cmds @ '' home'') None]
      else otherCommands complexTasks automationSequences transcript)"

definition englishCommands :: voice_commands where
  \<comment> \<open>A phrase table for the examples.\<close>
  "englishCommands =
     \<lparr> startTimer = ''start timer'', startTimerFeedback = ''Timer started'',
       stopTimer = ''stop timer'', stopTimerFeedback = ''Timer stopped'',
       resetTimer = ''reset timer'', resetTimerFeedback = ''Timer reset'',
       startJog = ''start jog'', startJogFeedback = ''Jog started'',
       stopJog = ''stop jog'', stopJogFeedback = ''Jog stopped'',
       logExercise = ''log exercise'', startTimerFor = ''start timer for'',
       addEntry = ''add entry'', addEntryFeedback = ''Entry added'',
       setActualReps = ''set actual reps'', setActualRepsFeedback = ''Actual reps set to'',
       showProgress = ''show progress'', showArchive = ''show archive'',
       openSettings = ''open settings'', goHome = ''go home'',
       navigationFeedback = ''Showing'' \<rparr>"

definition emptyDocument :: document where
  "emptyDocument =
     \<lparr> addEntryElem = False, typeElem = None, actualValueElem = False, repsElem = False \<rparr>"

definition repsDocument :: document where
  "repsDocument =
     \<lparr> addEntryElem = True, typeElem = Some ''reps'', actualValueElem = True, repsElem = True \<rparr>"

definition warmUpTask :: entry where
  "warmUpTask = \<lparr> commands = Some [''Warm Up Routine'', ''warmup''], command = None,
                  primaryCommand = None, name = Some ''Warm up'' \<rparr>"

definition coolDown :: entry where
  "coolDown = \<lparr> commands = None, command = None,
                primaryCommand = Some ''Cool Down'', name = Some ''Cool Down'' \<rparr>"

definition unnamedAutomation :: entry where
  \<comment> \<open>An entry with neither \<open>commands\<close>, \<open>command\<close> nor \<open>name\<close>.\<close>
  "unnamedAutomation = \<lparr> commands = None, command = None,
                         primaryCommand = Some ''cool down'', name = None \<rparr>"

definition countdownCommands :: voice_commands where
  \<comment> \<open>\<open>englishCommands\<close> with a timer phrase that does not contain \<open>start timer\<close>.\<close>
  "countdownCommands = englishCommands\<lparr>startTimerFor := ''countdown for''\<rparr>"

definition semiDocument :: document where
  "semiDocument =
     \<lparr> addEntryElem = True, typeElem = Some ''semi'', actualValueElem = True, repsElem = True \<rparr>"

definition timedDocument :: document where
  "timedDocument =
     \<lparr> addEntryElem = True, typeElem = Some ''time'', actualValueElem = True, repsElem = True \<rparr>"

section \<open>The dispatcher as the specification words it\<close>

text \<open>
  The specification describes dispatch as a search through an ordered table of built-in
  commands, then through the complex tasks, then through the automation sequences, the
  first match winning. \<open>builtinTable\<close> is that table in the order of the \<open>if\<close>
  chain, \<open>runBuiltin\<close> the body of each branch, and \<open>dispatchByPriority\<close> the search;
  \<open>processCommand\<close> above is compared with it.
\<close>

datatype builtin =
    BStartTimer | BStopTimer | BResetTimer | BStartJog | BStopJog | BLogExercise
  | BStartTimerFor | BAddEntry | BSetActualReps | BShowProgress | BShowArchive
  | BOpenSettings | BGoHome

definition builtinTable :: "voice_commands \<Rightarrow> (string \<times> builtin) list" where
  "builtinTable cmds =
     [(startTimer cmds, BStartTimer), (stopTimer cmds, BStopTimer),
      (resetTimer cmds, BResetTimer), (startJog cmds, BStartJog),
      (stopJog cmds, BStopJog), (logExercise cmds, BLogExercise),
      (startTimerFor cmds, BStartTimerFor), (addEntry cmds, BAddEntry),
      (setActualReps cmds, BSetActualReps), (showProgress cmds, BShowProgress),
      (showArchive cmds, BShowArchive), (openSettings cmds, BOpenSettings),
      (goHome cmds, BGoHome)]"

definition firstBuiltin :: "voice_commands \<Rightarrow> string \<Rightarrow> builtin option" where
  "firstBuiltin cmds transcript =
     map_option snd (find (\<lambda>row. includes_str transcript (fst row)) (builtinTable cmds))"

definition runBuiltin ::
  "voice_commands \<Rightarrow> document \<Rightarrow> string \<Rightarrow> builtin \<Rightarrow> js_error + effect list" where
  "runBuiltin cmds doc transcript b =
     (case b of
        BStartTimer \<Rightarrow>
          Inr [StartTimer, SpeakFeedback (startTimerFeedback cmds) (Some ''startTimer'')]
      | BStopTimer \<Rightarrow>
          Inr [StopTimer, SpeakFeedback (stopTimerFeedback cmds) (Some ''stopTimer'')]
      | BResetTimer \<Rightarrow> Inr [ResetTimer, SpeakFeedback (resetTimerFeedback cmds) None]
      | BStartJog \<Rightarrow> Inr [StartJogging, SpeakFeedback (startJogFeedback cmds) None]
      | BStopJog \<Rightarrow> Inr [StopJogging, SpeakFeedback (stopJogFeedback cmds) None]
      | BLogExercise \<Rightarrow>
          (case argumentAfter transcript (logExercise cmds) of
             Inl e \<Rightarrow> Inl e
           | Inr arg \<Rightarrow> Inr [HandleSmartExerciseLogging arg])
      | BStartTimerFor \<Rightarrow>
          (case argumentAfter transcript (startTimerFor cmds) of
             Inl e \<Rightarrow> Inl e
           | Inr arg \<Rightarrow> Inr [HandleTimerForDuration arg])
      | BAddEntry \<Rightarrow>
          (if addEntryElem doc
           then Inr [AddBtnClick, SpeakFeedback (addEntryFeedback cmds) (Some ''addEntry'')]
           else Inr [])
      | BSetActualReps \<Rightarrow> setReps cmds doc transcript
      | BShowProgress \<Rightarrow>
          Inr [ShowProgressView,
               SpeakFeedback (navigationFeedback cmds @ '' progress view'') None]
      | BShowArchive \<Rightarrow>
          Inr [ShowArchiveView,
               SpeakFeedback (navigationFeedback cmds @ '' archive view'') None]
      | BOpenSettings \<Rightarrow>
          Inr [ShowSettingsView, SpeakFeedback (navigationFeedback cmds @ '' settings'') None]
      | BGoHome \<Rightarrow>
          Inr [HideAllViews, SpeakFeedback (navigationFeedback cmds @ '' home'') None])"

definition dispatchByPriority ::
  "voice_commands \<Rightarrow> document \<Rightarrow> entry list \<Rightarrow> entry list \<Rightarrow> string
     \<Rightarrow> js_error + effect list" where
  "dispatchByPriority cmds doc complexTasks automationSequences transcript0 =
     (let transcript = toLowerCase transcript0 in
      case firstBuiltin cmds transcript of
        Some b \<Rightarrow> runBuiltin cmds doc transcript b
      | None \<Rightarrow>
          (case find (taskMatches transcript) complexTasks of
             Some task \<Rightarrow> Inr [ExecuteComplexTask task]
           | None \<Rightarrow>
               (case scanAutomationSequences transcript automationSequences of
                  Inl e \<Rightarrow> Inl e
                | Inr (Some automation) \<Rightarrow> Inr [ExecuteAutomationSequence automation]
                | Inr None \<Rightarrow> Inr [SpeakFeedback notRecognized None])))"

fun is_action :: "effect \<Rightarrow> bool" where
  "is_action (SpeakFeedback text key) = False"
| "is_action e = True"


definition effectsOf :: "js_error + effect list \<Rightarrow> effect list" where
  "effectsOf r = (case r of Inl e \<Rightarrow> [] | Inr effs \<Rightarrow> effs)"

definition actionsFired :: "js_error + effect list \<Rightarrow> nat" where
  "actionsFired r = length (filter is_action (effectsOf r))"

definition hasTrigger :: "entry \<Rightarrow> bool" where
  \<comment> \<open>The entry has a \<open>commands\<close> list, a non-empty \<open>command\<close> or a \<open>name\<close>:
      something the test of the automation loop can compare.\<close>
  "hasTrigger automation =
     (case commands automation of
        Some cmds \<Rightarrow> True
      | None \<Rightarrow>
          truthy (command automation)
          \<or> (case name automation of Some n \<Rightarrow> True | None \<Rightarrow> False))"

definition noRepsField :: "document \<Rightarrow> bool" where
  "noRepsField doc =
     (case typeElem doc of
        None \<Rightarrow> False
      | Some type \<Rightarrow>
          (if type = ''reps'' then \<not> actualValueElem doc
           else if type = ''semi'' then \<not> repsElem doc
           else True))"

section \<open>The speech source adapter (\<open>WhisperSpeechRecognition\<close>)\<close>

text \<open>
  The fields of a \<open>WhisperSpeechRecognition\<close> object that \<open>start\<close>, \<open>stop\<close> and
  \<open>abort\<close> read or write. A callback slot is \<open>True\<close> when the application has
  installed a handler; a resource field is \<open>True\<close> when it holds an object (not
  \<open>null\<close>). Handlers installed by the application are taken not to throw.
\<close>

datatype shim_kind = NativeShim | OfflineShim

datatype shim = Shim (kind: shim_kind) (has_stop: bool)

record recognizer =
  onstart :: bool
  onend :: bool
  onerror :: bool
  listening :: bool
  audioCtx :: bool
  mediaStream :: bool
  processor :: bool
  moduleLoaded :: bool
  usingFallback :: bool
  fallbackShim :: "shim option"

datatype event =
    CallOnStart
  | CallOnError string
  | CallOnEnd
  | PlayBeep
  | ShimStart shim
  | ShimStop shim
  | OpenAudioContext
  | OpenMediaStream
  | CreateProcessor
  | DisconnectProcessor
  | CloseAudioContext
  | StopTracks

text \<open>
  What the browser does during one call of \<open>start\<close>: whether \<open>_initWhisper\<close>
  succeeds, how a fallback recognizer behaves when there is one (\<open>None\<close>: there is
  none), and how far the microphone set-up gets.
\<close>

datatype fallback_outcome = ConstructThrows | StartThrows | Starts

datatype mic_stage =
  AtAudioContext | AtGetUserMedia | AtCreateSource | AtCreateProcessor | AtConnect

datatype mic_outcome = MicFails mic_stage "string option" | MicLive

record start_env =
  whisperLoads :: bool
  nativeRecognition :: "fallback_outcome option"
  offlineVoice :: "fallback_outcome option"
  offlineHasStop :: bool
  micSetup :: mic_outcome
  voiceBeep :: bool

definition constructor :: recognizer where
  \<comment> \<open>The state after \<open>new WhisperSpeechRecognition()\<close>.\<close>
  "constructor =
     \<lparr> onstart = False, onend = False, onerror = False, listening = False,
       audioCtx = False, mediaStream = False, processor = False, moduleLoaded = False,
       usingFallback = False, fallbackShim = None \<rparr>"

definition initWhisper :: "start_env \<Rightarrow> recognizer \<Rightarrow> bool \<times> recognizer" where
  \<comment> \<open>\<open>_initWhisper\<close>: true at once when the module is loaded; otherwise the model
      fetch and the script load succeed or an exception is caught and false returned.\<close>
  "initWhisper env r =
     (if moduleLoaded r then (True, r)
      else if whisperLoads env then (True, r\<lparr>moduleLoaded := True\<rparr>)
      else (False, r))"

definition fireOnStart :: "recognizer \<Rightarrow> event list" where
  "fireOnStart r = (if onstart r then [CallOnStart] else [])"

definition beep :: "start_env \<Rightarrow> event list" where
  "beep env = (if voiceBeep env then [PlayBeep] else [])"

definition errorText :: "string option \<Rightarrow> string" where
  \<comment> \<open>\<open>err && err.message ? err.message : 'mic-initialization-failed'\<close>\<close>
  "errorText msg =
     (case msg of
        None \<Rightarrow> ''mic-initialization-failed''
      | Some m \<Rightarrow> if m \<noteq> [] then m else ''mic-initialization-failed'')"

definition useShim ::
  "start_env \<Rightarrow> shim \<Rightarrow> fallback_outcome \<Rightarrow> recognizer \<Rightarrow> bool \<times> recognizer \<times> event list" where
  \<comment> \<open>One fallback block of \<open>start\<close>. The first component tells whether the block
      returned from \<open>start\<close>; otherwise its exception was caught and \<open>start\<close> goes on.\<close>
  "useShim env sh outcome r =
     (case outcome of
        ConstructThrows \<Rightarrow> (False, r, [])
      | StartThrows \<Rightarrow>
          (False, r\<lparr>usingFallback := True, fallbackShim := Some sh, listening := True\<rparr>,
           fireOnStart r @ beep env)
      | Starts \<Rightarrow>
          (True, r\<lparr>usingFallback := True, fallbackShim := Some sh, listening := True\<rparr>,
           fireOnStart r @ beep env @ [ShimStart sh]))"

definition micFailure :: "mic_stage \<Rightarrow> recognizer \<Rightarrow> recognizer \<times> event list" where
  \<comment> \<open>The assignments done and the resources opened before the stage that throws.\<close>
  "micFailure stage r =
     (case stage of
        AtAudioContext \<Rightarrow> (r, [])
      | AtGetUserMedia \<Rightarrow> (r\<lparr>audioCtx := True\<rparr>, [OpenAudioContext])
      | AtCreateSource \<Rightarrow>
          (r\<lparr>audioCtx := True, mediaStream := True\<rparr>, [OpenAudioContext, OpenMediaStream])
      | AtCreateProcessor \<Rightarrow>
          (r\<lparr>audioCtx := True, mediaStream := True\<rparr>, [OpenAudioContext, OpenMediaStream])
      | AtConnect \<Rightarrow>
          (r\<lparr>audioCtx := True, mediaStream := True, processor := True\<rparr>,
           [OpenAudioContext, OpenMediaStream, CreateProcessor]))"

definition captureMicrophone :: "start_env \<Rightarrow> recognizer \<Rightarrow> recognizer \<times> event list" where
  \<comment> \<open>The final \<open>try\<close> block of \<open>start\<close> with its \<open>catch\<close>.\<close>
  "captureMicrophone env r =
     (case micSetup env of
        MicFails stage msg \<Rightarrow>
          (let (r', evs) = micFailure stage r
           in (r'\<lparr>listening := False\<rparr>,
               evs @ (if onerror r then [CallOnError (errorText msg)] else [])))
      | MicLive \<Rightarrow>
          (r\<lparr>audioCtx := True, mediaStream := True, processor := True, listening := True\<rparr>,
           [OpenAudioContext, OpenMediaStream, CreateProcessor] @ fireOnStart r @ beep env))"

definition start :: "start_env \<Rightarrow> recognizer \<Rightarrow> recognizer \<times> event list" where
  "start env r =
     (if listening r then (r, [])
      else
        let (ok, r1) = initWhisper env r in
        if ok then captureMicrophone env r1
        else
          let (done1, r2, evs1) =
                (case nativeRecognition env of
                   None \<Rightarrow> (False, r1, [])
                 | Some outcome \<Rightarrow> useShim env (Shim NativeShim True) outcome r1)
          in if done1 then (r2, evs1)
             else
               let (done2, r3, evs2) =
                     (case offlineVoice env of
                        None \<Rightarrow> (False, r2, [])
                      | Some outcome \<Rightarrow>
                          useShim env (Shim OfflineShim (offlineHasStop env)) outcome r2)
               in if done2 then (r3, evs1 @ evs2)
                  else
                    let (r4, evs3) = captureMicrophone env r3
                    in (r4, evs1 @ evs2 @ evs3))"

definition stop :: "recognizer \<Rightarrow> recognizer \<times> event list" where
  \<comment> \<open>\<open>stop\<close>. The calls \<open>shim.stop()\<close>, \<open>close()\<close> and \<open>tr.stop()\<close> sit in
      \<open>try\<close> blocks with empty handlers, so whether they throw changes nothing;
      \<open>disconnect()\<close> without arguments does not throw.\<close>
  "stop r =
     (r\<lparr>processor := False, audioCtx := False, mediaStream := False, listening := False\<rparr>,
      (case fallbackShim r of
         Some sh \<Rightarrow> if usingFallback r \<and> has_stop sh then [ShimStop sh] else []
       | None \<Rightarrow> [])
      @ (if processor r then [DisconnectProcessor] else [])
      @ (if audioCtx r then [CloseAudioContext] else [])
      @ (if mediaStream r then [StopTracks] else [])
      @ (if onend r then [CallOnEnd] else []))"

definition abort :: "recognizer \<Rightarrow> recognizer \<times> event list" where
  "abort r = stop r"

fun completedCycles :: "start_env list \<Rightarrow> recognizer \<Rightarrow> recognizer \<times> event list" where
  \<comment> \<open>Repeated \<open>start(); stop()\<close> where every \<open>start\<close> has run to its end before
      \<open>stop\<close> is called; one environment for each \<open>start\<close>. Calls that overlap are
      the subject of \<open>run\<close> below.\<close>
  "completedCycles [] r = (r, [])"
| "completedCycles (env # envs) r =
     (let (r1, evs1) = start env r;
          (r2, evs2) = stop r1;
          (r3, evs3) = completedCycles envs r2
      in (r3, evs1 @ evs2 @ evs3))"

definition holdsNothing :: "recognizer \<Rightarrow> bool" where
  "holdsNothing r = (\<not> processor r \<and> \<not> audioCtx r \<and> \<not> mediaStream r)"

definition balanced :: "event list \<Rightarrow> bool" where
  \<comment> \<open>Every resource opened was released.\<close>
  "balanced evs =
     (count_list evs OpenAudioContext = count_list evs CloseAudioContext
      \<and> count_list evs OpenMediaStream = count_list evs StopTracks
      \<and> count_list evs CreateProcessor = count_list evs DisconnectProcessor)"

definition installed :: recognizer where
  \<comment> \<open>A new recognizer whose three callbacks the application has set.\<close>
  "installed = constructor\<lparr>onstart := True, onend := True, onerror := True\<rparr>"

definition nothingWorks :: start_env where
  \<comment> \<open>The engine does not load, there is no native recognizer and no offline
      simulation; the microphone is available.\<close>
  "nothingWorks =
     \<lparr> whisperLoads = False, nativeRecognition = None, offlineVoice = None,
       offlineHasStop = False, micSetup = MicLive, voiceBeep = False \<rparr>"

definition fallbacksThrow :: start_env where
  \<comment> \<open>As \<open>nothingWorks\<close>, with a native recognizer whose constructor throws and an
      offline simulation whose \<open>start\<close> throws.\<close>
  "fallbacksThrow =
     \<lparr> whisperLoads = False, nativeRecognition = Some ConstructThrows,
       offlineVoice = Some StartThrows, offlineHasStop = True, micSetup = MicLive,
       voiceBeep = False \<rparr>"

section \<open>\<open>start\<close> as the asynchronous function it is\<close>

text \<open>
  \<open>start\<close> is an \<open>async\<close> function: it runs up to \<open>await this._initWhisper()\<close>,
  later up to \<open>await navigator.mediaDevices.getUserMedia(...)\<close>, and later to its
  end, and other calls on the recognizer can run in between. \<open>start\<close> above is the
  three segments run one after the other with nothing in between.
\<close>

datatype pending =
    AwaitInit bool
  | AwaitUserMedia

definition startCall :: "recognizer \<Rightarrow> pending option" where
  \<comment> \<open>The segment up to the first \<open>await\<close>: the guard, and the call of
      \<open>_initWhisper\<close>, which reads \<open>_moduleLoaded\<close> at once.\<close>
  "startCall r = (if listening r then None else Some (AwaitInit (moduleLoaded r)))"

definition caught :: "recognizer \<Rightarrow> event list \<Rightarrow> string option \<Rightarrow> recognizer \<times> event list" where
  \<comment> \<open>The \<open>catch\<close> of the microphone set-up.\<close>
  "caught r evs msg =
     (r\<lparr>listening := False\<rparr>, evs @ (if onerror r then [CallOnError (errorText msg)] else []))"

definition openAudioContext ::
  "start_env \<Rightarrow> recognizer \<Rightarrow> recognizer \<times> event list \<times> pending option" where
  \<comment> \<open>The microphone set-up up to \<open>await getUserMedia\<close>.\<close>
  "openAudioContext env r =
     (case micSetup env of
        MicLive \<Rightarrow> (r\<lparr>audioCtx := True\<rparr>, [OpenAudioContext], Some AwaitUserMedia)
      | MicFails stage msg \<Rightarrow>
          (if stage = AtAudioContext
           then (let (r', evs) = caught r [] msg in (r', evs, None))
           else (r\<lparr>audioCtx := True\<rparr>, [OpenAudioContext], Some AwaitUserMedia)))"

definition afterInit ::
  "start_env \<Rightarrow> bool \<Rightarrow> recognizer \<Rightarrow> recognizer \<times> event list \<times> pending option" where
  \<comment> \<open>The segment between the two \<open>await\<close>s; \<open>loaded\<close> is \<open>_moduleLoaded\<close> as
      \<open>_initWhisper\<close> read it when it was called.\<close>
  "afterInit env loaded r =
     (let (ok, r1) =
            (if loaded then (True, r)
             else if whisperLoads env then (True, r\<lparr>moduleLoaded := True\<rparr>)
             else (False, r))
      in if ok then openAudioContext env r1
         else
           let (done1, r2, evs1) =
                 (case nativeRecognition env of
                    None \<Rightarrow> (False, r1, [])
                  | Some outcome \<Rightarrow> useShim env (Shim NativeShim True) outcome r1)
           in if done1 then (r2, evs1, None)
              else
                let (done2, r3, evs2) =
                      (case offlineVoice env of
                         None \<Rightarrow> (False, r2, [])
                       | Some outcome \<Rightarrow>
                           useShim env (Shim OfflineShim (offlineHasStop env)) outcome r2)
                in if done2 then (r3, evs1 @ evs2, None)
                   else
                     let (r4, evs3, p) = openAudioContext env r3
                     in (r4, evs1 @ evs2 @ evs3, p))"

definition afterUserMedia ::
  "start_env \<Rightarrow> string option \<Rightarrow> recognizer \<Rightarrow> recognizer \<times> event list" where
  \<comment> \<open>The segment after \<open>await getUserMedia\<close>. When \<open>_audioCtx\<close> is \<open>null\<close> by now,
      \<open>this._audioCtx.createMediaStreamSource\<close> throws a TypeError whose message is
      \<open>nullMsg\<close>; the stream is already assigned. With the outcome \<open>AtAudioContext\<close>
      this segment is never reached.\<close>
  "afterUserMedia env nullMsg r =
     (case micSetup env of
        MicLive \<Rightarrow>
          (if audioCtx r
           then (r\<lparr>mediaStream := True, processor := True, listening := True\<rparr>,
                 [OpenMediaStream, CreateProcessor] @ fireOnStart r @ beep env)
           else caught (r\<lparr>mediaStream := True\<rparr>) [OpenMediaStream] nullMsg)
      | MicFails stage msg \<Rightarrow>
          (case stage of
             AtAudioContext \<Rightarrow> (r, [])
           | AtGetUserMedia \<Rightarrow> caught r [] msg
           | AtCreateSource \<Rightarrow>
               caught (r\<lparr>mediaStream := True\<rparr>) [OpenMediaStream]
                 (if audioCtx r then msg else nullMsg)
           | AtCreateProcessor \<Rightarrow>
               caught (r\<lparr>mediaStream := True\<rparr>) [OpenMediaStream]
                 (if audioCtx r then msg else nullMsg)
           | AtConnect \<Rightarrow>
               (if audioCtx r
                then caught (r\<lparr>mediaStream := True, processor := True\<rparr>)
                       [OpenMediaStream, CreateProcessor] msg
                else caught (r\<lparr>mediaStream := True\<rparr>) [OpenMediaStream] nullMsg)))"

definition resume ::
  "start_env \<Rightarrow> string option \<Rightarrow> pending \<Rightarrow> recognizer
     \<Rightarrow> recognizer \<times> event list \<times> pending option" where
  "resume env nullMsg p r =
     (case p of
        AwaitInit loaded \<Rightarrow> afterInit env loaded r
      | AwaitUserMedia \<Rightarrow> (let (r', evs) = afterUserMedia env nullMsg r in (r', evs, None)))"

text \<open>
  A recognizer together with the calls of \<open>start\<close> that are suspended at an \<open>await\<close>,
  and everything done so far. A step is a call of \<open>start\<close>, a call of \<open>stop\<close>, or
  the event loop resuming the suspended call with the given index.
\<close>

record session =
  recognizerState :: recognizer
  pendingStarts :: "pending list"
  trace :: "event list"

datatype step = StartCalled | StopCalled | Resumed nat

definition doStep :: "start_env \<Rightarrow> string option \<Rightarrow> step \<Rightarrow> session \<Rightarrow> session" where
  "doStep env nullMsg x s =
     (case x of
        StartCalled \<Rightarrow>
          (case startCall (recognizerState s) of
             None \<Rightarrow> s
           | Some p \<Rightarrow> s\<lparr>pendingStarts := pendingStarts s @ [p]\<rparr>)
      | StopCalled \<Rightarrow>
          (let (r', evs) = stop (recognizerState s)
           in s\<lparr>recognizerState := r', trace := trace s @ evs\<rparr>)
      | Resumed i \<Rightarrow>
          (if i < length (pendingStarts s)
           then
             (let (r', evs, next) = resume env nullMsg (pendingStarts s ! i) (recognizerState s)
              in s\<lparr>recognizerState := r',
                   pendingStarts :=
                     (case next of
                        None \<Rightarrow> take i (pendingStarts s) @ drop (Suc i) (pendingStarts s)
                      | Some p \<Rightarrow> (pendingStarts s)[i := p]),
                   trace := trace s @ evs\<rparr>)
           else s))"

fun run :: "start_env \<Rightarrow> string option \<Rightarrow> step list \<Rightarrow> session \<Rightarrow> session" where
  "run env nullMsg [] s = s"
| "run env nullMsg (x # xs) s = run env nullMsg xs (doStep env nullMsg x s)"

definition idle :: "recognizer \<Rightarrow> session" where
  "idle r = \<lparr> recognizerState = r, pendingStarts = [], trace = [] \<rparr>"

definition engineLoads :: start_env where
  \<comment> \<open>The engine loads and the microphone is available.\<close>
  "engineLoads =
     \<lparr> whisperLoads = True, nativeRecognition = None, offlineVoice = None,
       offlineHasStop = False, micSetup = MicLive, voiceBeep = False \<rparr>"

section \<open>The recorder of whisper.js (\<open>startWhisperRecognition\<close>)\<close>

text \<open>
  The module variables \<open>whisper\<close>, \<open>isRecording\<close>, \<open>audioContext\<close> and
  \<open>mediaRecorder\<close> (\<open>True\<close>: the variable holds an object). \<open>audioChunks\<close> is only
  touched by the recorder's asynchronous handlers, which are not part of the model.
\<close>

record whisper_module =
  whisper :: bool
  isRecording :: bool
  audioContext :: bool
  mediaRecorder :: bool

datatype module_event =
    UpdateVoiceStatus string string
  | MediaRecorderStart
  | MediaRecorderStop

datatype init_outcome = ScriptLoadFails | WhisperConstructorThrows | InitRejects | InitDone

datatype record_outcome =
  StreamRejected | AudioContextThrows | RecorderThrows | RecorderStartThrows | Recording

record module_env =
  initOutcome :: init_outcome
  recordOutcome :: record_outcome

definition initializeWhisper ::
  "module_env \<Rightarrow> whisper_module \<Rightarrow> whisper_module \<times> module_event list" where
  \<comment> \<open>\<open>whisper\<close> is assigned before \<open>init()\<close> is awaited, so it stays set when
      \<open>init()\<close> rejects. The progress updates during \<open>init()\<close> are left out.\<close>
  "initializeWhisper env m =
     (case initOutcome env of
        ScriptLoadFails \<Rightarrow> (m, [UpdateVoiceStatus ''Whisper failed to load'' ''error''])
      | WhisperConstructorThrows \<Rightarrow>
          (m, [UpdateVoiceStatus ''Whisper failed to load'' ''error''])
      | InitRejects \<Rightarrow>
          (m\<lparr>whisper := True\<rparr>, [UpdateVoiceStatus ''Whisper failed to load'' ''error''])
      | InitDone \<Rightarrow> (m\<lparr>whisper := True\<rparr>, [UpdateVoiceStatus ''Whisper ready'' ''ready'']))"

definition stopWhisperRecognition :: "whisper_module \<Rightarrow> whisper_module \<times> module_event list" where
  "stopWhisperRecognition m =
     (if mediaRecorder m \<and> isRecording m
      then (m\<lparr>isRecording := False\<rparr>, [MediaRecorderStop])
      else (m, []))"

definition startWhisperRecognition ::
  "module_env \<Rightarrow> whisper_module \<Rightarrow> whisper_module \<times> module_event list" where
  "startWhisperRecognition env m =
     (let (m1, evs1) = (if \<not> whisper m then initializeWhisper env m else (m, [])) in
      if isRecording m1 then
        (let (m2, evs2) = stopWhisperRecognition m1 in (m2, evs1 @ evs2))
      else
        (case recordOutcome env of
           StreamRejected \<Rightarrow> (m1, evs1 @ [UpdateVoiceStatus ''Mic access denied'' ''error''])
         | AudioContextThrows \<Rightarrow>
             (m1, evs1 @ [UpdateVoiceStatus ''Mic access denied'' ''error''])
         | RecorderThrows \<Rightarrow>
             (m1\<lparr>audioContext := True\<rparr>,
              evs1 @ [UpdateVoiceStatus ''Mic access denied'' ''error''])
         | RecorderStartThrows \<Rightarrow>
             (m1\<lparr>audioContext := True, mediaRecorder := True\<rparr>,
              evs1 @ [UpdateVoiceStatus ''Mic access denied'' ''error''])
         | Recording \<Rightarrow>
             (m1\<lparr>audioContext := True, mediaRecorder := True, isRecording := True\<rparr>,
              evs1 @ [MediaRecorderStart, UpdateVoiceStatus ''Listening...'' ''listening''])))"

definition recordingModule :: whisper_module where
  "recordingModule =
     \<lparr> whisper = True, isRecording = True, audioContext = True, mediaRecorder = True \<rparr>"

definition micWorks :: module_env where
  "micWorks = \<lparr> initOutcome = InitDone, recordOutcome = Recording \<rparr>"

definition liveRecognizer :: recognizer where
  \<comment> \<open>The state after \<open>start\<close> in the environment \<open>fallbacksThrow\<close>: listening on
      the microphone, with the offline shim recorded.\<close>
  "liveRecognizer = fst (start fallbacksThrow installed)"

fun is_resource_event :: "event \<Rightarrow> bool" where
  "is_resource_event OpenAudioContext = True"
| "is_resource_event OpenMediaStream = True"
| "is_resource_event CreateProcessor = True"
| "is_resource_event DisconnectProcessor = True"
| "is_resource_event CloseAudioContext = True"
| "is_resource_event StopTracks = True"
| "is_resource_event e = False"

fun is_error_call :: "event \<Rightarrow> bool" where
  "is_error_call (CallOnError reason) = True"
| "is_error_call e = False"

definition shimConsistent :: "recognizer \<Rightarrow> bool" where
  "shimConsistent r = (case fallbackShim r of None \<Rightarrow> True | Some sh \<Rightarrow> usingFallback r)"

section \<open>Properties of the string primitives\<close>

lemma of_char_shifted:
  "n \<le> 222 \<Longrightarrow> (of_char (char_of (n + 32 :: nat)) :: nat) = n + 32"
  by (simp add: of_char_of)

lemma lower_unit_idem: "lower_unit (lower_unit c) = lower_unit c"
proof (cases "lower_unit c = c")
  case True
  then show ?thesis by simp
next
  case False
  then have up: "(65 \<le> (of_char c :: nat) \<and> (of_char c :: nat) \<le> 90)
      \<or> (192 \<le> (of_char c :: nat) \<and> (of_char c :: nat) \<le> 214)
      \<or> (216 \<le> (of_char c :: nat) \<and> (of_char c :: nat) \<le> 222)"
    by (auto simp: lower_unit_def Let_def split: if_splits)
  then have eq: "lower_unit c = char_of ((of_char c :: nat) + 32)"
    by (simp add: lower_unit_def Let_def)
  from up have "(of_char c :: nat) \<le> 222" by auto
  from of_char_shifted [OF this] up show ?thesis
    unfolding eq by (auto simp: lower_unit_def Let_def)
qed

lemma toLowerCase_idem: "toLowerCase (toLowerCase s) = toLowerCase s"
  by (simp add: toLowerCase_def lower_unit_idem)

lemma includes_iff_splitAtFirst: "includes_str s p \<longleftrightarrow> splitAtFirst p s \<noteq> None"
  by (induction s) auto

lemma split_str_not_Nil: "sep \<noteq> [] \<Longrightarrow> split_str s sep \<noteq> []"
  by (subst split_str.simps) (auto split: option.splits)

lemma split_str_found:
  "sep \<noteq> [] \<Longrightarrow> splitAtFirst sep s = Some (b, a) \<Longrightarrow> split_str s sep = b # split_str a sep"
  by (subst split_str.simps) simp

lemma split_str_two:
  assumes "includes_str s sep" and "sep \<noteq> []"
  shows "2 \<le> length (split_str s sep)"
proof -
  from assms(1) obtain b a where ba: "splitAtFirst sep s = Some (b, a)"
    by (auto simp: includes_iff_splitAtFirst)
  from split_str_not_Nil [OF assms(2), of a] obtain x xs where "split_str a sep = x # xs"
    by (cases "split_str a sep") auto
  with split_str_found [OF assms(2) ba] show ?thesis by simp
qed

lemma prefix_within:
  "prefix p (xs @ ys) \<Longrightarrow> length p \<le> length xs \<Longrightarrow> prefix p xs"
  by (auto simp: prefix_append)

lemma splitAtFirst_leftmost:
  assumes "p \<noteq> []" and "\<not> includes_str (b @ butlast p) p"
  shows "splitAtFirst p (b @ p @ a) = Some (b, a)"
  using assms(2)
proof (induction b)
  case Nil
  from assms(1) show ?case by (cases p) simp_all
next
  case (Cons c b)
  from Cons.prems have np: "\<not> prefix p (c # b @ butlast p)"
    and ni: "\<not> includes_str (b @ butlast p) p"
    by simp_all
  have "c # b @ p @ a = (c # b @ butlast p) @ (last p # a)"
    using assms(1) by (simp add: append_butlast_last_id [symmetric] del: append_butlast_last_id)
  moreover have "length p \<le> length (c # b @ butlast p)"
    using assms(1) by (cases p) simp_all
  ultimately have "\<not> prefix p (c # b @ p @ a)"
    using np prefix_within by metis
  with Cons.IH [OF ni] show ?case by simp
qed

lemma split_str_once:
  assumes "p \<noteq> []" and "\<not> includes_str (b @ butlast p) p" and "\<not> includes_str a p"
  shows "split_str (b @ p @ a) p = [b, a]"
proof -
  from assms(3) have "splitAtFirst p a = None"
    using includes_iff_splitAtFirst [of a p] by blast
  with assms(1) have "split_str a p = [a]"
    by (subst split_str.simps) simp
  with split_str_found [OF assms(1) splitAtFirst_leftmost [OF assms(1,2)]]
  show ?thesis by simp
qed

lemma includes_str_iff_sublist: "includes_str s p \<longleftrightarrow> sublist p s"
  by (induction s) (auto simp: sublist_Cons_right)

lemma splitAtFirst_sound: "splitAtFirst p s = Some (b, a) \<Longrightarrow> s = b @ p @ a"
proof (induction s arbitrary: b)
  case Nil
  then show ?case by (simp split: if_splits)
next
  case (Cons c s)
  then show ?case
    by (auto simp: prefix_def split: if_splits prod.splits)
qed

section \<open>Properties of the dispatcher\<close>

lemma argumentAfter_once:
  assumes "p \<noteq> []" and "\<not> includes_str (b @ butlast p) p" and "\<not> includes_str a p"
  shows "argumentAfter (b @ p @ a) p = Inr (trim a)"
  by (simp add: argumentAfter_def at_index_def split_str_once [OF assms])

lemma scanComplexTasks_find: "scanComplexTasks t tasks = find (taskMatches t) tasks"
  by (induction tasks) simp_all

lemma processCommand_eq_dispatch:
  "processCommand cmds doc tasks autos t0 = dispatchByPriority cmds doc tasks autos t0"
  by (simp add: processCommand_def dispatchByPriority_def firstBuiltin_def builtinTable_def
      runBuiltin_def otherCommands_def scanComplexTasks_find Let_def
      split: sum.splits)

lemma processCommand_builtin:
  "firstBuiltin cmds (toLowerCase t0) = Some b \<Longrightarrow>
   processCommand cmds doc tasks autos t0 = runBuiltin cmds doc (toLowerCase t0) b"
  by (simp add: processCommand_eq_dispatch dispatchByPriority_def Let_def)




lemma otherCommands_not_Nil: "otherCommands tasks autos t \<noteq> Inr []"
  by (simp add: otherCommands_def split: sum.splits option.splits)

lemma runBuiltin_Nil:
  "runBuiltin cmds doc t b = Inr [] \<longleftrightarrow>
     (b = BAddEntry \<and> \<not> addEntryElem doc)
     \<or> (b = BSetActualReps \<and> (\<exists>arg. argumentAfter t (setActualReps cmds) = Inr arg)
         \<and> noRepsField doc)"
  by (cases b)
    (auto simp add: runBuiltin_def setReps_def noRepsField_def Let_def
      split: sum.splits option.splits if_splits)

lemma firstBuiltin_None:
  "firstBuiltin cmds t = None \<longleftrightarrow> (\<forall>row \<in> set (builtinTable cmds). \<not> includes_str t (fst row))"
  by (auto simp add: firstBuiltin_def find_None_iff)

lemma scanAutomationSequences_none:
  "\<forall>a \<in> set autos. automationMatches t a = Inr False \<Longrightarrow> scanAutomationSequences t autos = Inr None"
  by (induction autos) simp_all

lemma automationMatches_throws:
  "automationMatches t a = Inl TypeError \<longleftrightarrow> \<not> hasTrigger a"
  by (auto simp: automationMatches_def hasTrigger_def truthy_def split: option.splits)

lemma automationMatches_no_match:
  assumes "hasTrigger a" and "automationMatches t a \<noteq> Inr True"
  shows "automationMatches t a = Inr False"
proof (cases "automationMatches t a")
  case (Inl e)
  then have "automationMatches t a = Inl TypeError" by (cases e) simp
  with assms(1) show ?thesis by (simp add: automationMatches_throws)
next
  case (Inr b)
  with assms(2) show ?thesis by (cases b) simp_all
qed

lemma matching_agrees_on_phrases:
  "commands e \<noteq> None \<or> truthy (command e) \<Longrightarrow> automationMatches t e = Inr (taskMatches t e)"
  by (auto simp: automationMatches_def taskMatches_def truthy_def split: option.splits)

lemma repeated_phrase_cuts_argument:
  "splitAtFirst (logExercise englishCommands) ''log exercise squats then log exercise lunges''
     = Some ([], '' squats then log exercise lunges'')
   \<and> processCommand englishCommands repsDocument [] []
        ''log exercise squats then log exercise lunges''
       = Inr [HandleSmartExerciseLogging ''squats then'']"
  by code_simp

lemma prefix_phrase_shadows:
  "includes_str (toLowerCase ''start timer for 5 minutes'') (startTimerFor englishCommands)
   \<and> processCommand englishCommands repsDocument [] [] ''start timer for 5 minutes''
       = Inr [StartTimer, SpeakFeedback ''Timer started'' (Some ''startTimer'')]"
  by code_simp



text \<open>
  C2, as amended. Let the lowercased transcript be \<open>b @ phrase @ a\<close> with a non-empty
  phrase whose first occurrence is the one after \<open>b\<close> and which does not occur again
  in the remainder \<open>a\<close>. When dispatch reaches the branch of an argument-taking
  built-in with that phrase (no earlier built-in matches; for \<open>setActualReps\<close> the
  page has the selected field), the argument handed on is \<open>trim a\<close>; when the
  remainder is empty the argument is the empty string.
\<close>

theorem argument_is_trimmed_remainder:
  assumes "toLowerCase t0 = b @ phrase @ a" and "phrase \<noteq> []"
      and "\<not> includes_str (b @ butlast phrase) phrase"
      and "\<not> includes_str a phrase"
  shows "(firstBuiltin cmds (toLowerCase t0) = Some BLogExercise \<and> phrase = logExercise cmds
            \<longrightarrow> processCommand cmds doc tasks autos t0
                  = Inr [HandleSmartExerciseLogging (trim a)])
       \<and> (firstBuiltin cmds (toLowerCase t0) = Some BStartTimerFor \<and> phrase = startTimerFor cmds
            \<longrightarrow> processCommand cmds doc tasks autos t0
                  = Inr [HandleTimerForDuration (trim a)])
       \<and> (firstBuiltin cmds (toLowerCase t0) = Some BSetActualReps \<and> phrase = setActualReps cmds
            \<and> typeElem doc = Some ''reps'' \<and> actualValueElem doc
            \<longrightarrow> processCommand cmds doc tasks autos t0
                  = Inr [SetFieldValue ActualValueField (trim a),
                         SpeakFeedback (setActualRepsFeedback cmds @ '' '' @ trim a) None])
       \<and> (firstBuiltin cmds (toLowerCase t0) = Some BSetActualReps \<and> phrase = setActualReps cmds
            \<and> typeElem doc = Some ''semi'' \<and> repsElem doc
            \<longrightarrow> processCommand cmds doc tasks autos t0
                  = Inr [SetFieldValue RepsField (trim a),
                         SpeakFeedback (setActualRepsFeedback cmds @ '' '' @ trim a) None])
       \<and> (a = [] \<longrightarrow> argumentAfter (toLowerCase t0) phrase = Inr [])"
proof -
  have arg: "argumentAfter (toLowerCase t0) phrase = Inr (trim a)"
    unfolding assms(1) by (rule argumentAfter_once [OF assms(2,3,4)])
  show ?thesis
  proof (intro conjI impI)
    assume "firstBuiltin cmds (toLowerCase t0) = Some BLogExercise \<and> phrase = logExercise cmds"
    with arg processCommand_builtin [of cmds "t0" BLogExercise doc tasks autos]
    show "processCommand cmds doc tasks autos t0 = Inr [HandleSmartExerciseLogging (trim a)]"
      by (simp add: runBuiltin_def)
  next
    assume "firstBuiltin cmds (toLowerCase t0) = Some BStartTimerFor \<and> phrase = startTimerFor cmds"
    with arg processCommand_builtin [of cmds "t0" BStartTimerFor doc tasks autos]
    show "processCommand cmds doc tasks autos t0 = Inr [HandleTimerForDuration (trim a)]"
      by (simp add: runBuiltin_def)
  next
    assume "firstBuiltin cmds (toLowerCase t0) = Some BSetActualReps \<and> phrase = setActualReps cmds
            \<and> typeElem doc = Some ''reps'' \<and> actualValueElem doc"
    with arg processCommand_builtin [of cmds "t0" BSetActualReps doc tasks autos]
    show "processCommand cmds doc tasks autos t0
            = Inr [SetFieldValue ActualValueField (trim a),
                   SpeakFeedback (setActualRepsFeedback cmds @ '' '' @ trim a) None]"
      by (simp add: runBuiltin_def setReps_def)
  next
    assume "firstBuiltin cmds (toLowerCase t0) = Some BSetActualReps \<and> phrase = setActualReps cmds
            \<and> typeElem doc = Some ''semi'' \<and> repsElem doc"
    with arg processCommand_builtin [of cmds "t0" BSetActualReps doc tasks autos]
    show "processCommand cmds doc tasks autos t0
            = Inr [SetFieldValue RepsField (trim a),
                   SpeakFeedback (setActualRepsFeedback cmds @ '' '' @ trim a) None]"
      by (simp add: runBuiltin_def setReps_def)
  next
    assume "a = []"
    with arg show "argumentAfter (toLowerCase t0) phrase = Inr []"
      by (simp add: trim_def)
  qed
qed

theorem argument_is_trimmed_remainder_witness:
  "processCommand englishCommands repsDocument [] [] ''Log exercise pushups''
     = Inr [HandleSmartExerciseLogging ''pushups'']
   \<and> processCommand countdownCommands repsDocument [] [] ''Countdown for 5 minutes''
       = Inr [HandleTimerForDuration ''5 minutes'']
   \<and> processCommand englishCommands repsDocument [] [] ''please set actual reps 12 ''
       = Inr [SetFieldValue ActualValueField ''12'', SpeakFeedback ''Actual reps set to 12'' None]
   \<and> processCommand englishCommands semiDocument [] [] ''please set actual reps 12 ''
       = Inr [SetFieldValue RepsField ''12'', SpeakFeedback ''Actual reps set to 12'' None]
   \<and> argumentAfter (toLowerCase ''Log exercise'') ''log exercise'' = Inr []"
proof -
  have l1: "toLowerCase ''Log exercise pushups'' = [] @ ''log exercise'' @ '' pushups''"
    and l2: "''log exercise'' \<noteq> []"
    and l3: "\<not> includes_str ([] @ butlast ''log exercise'') ''log exercise''"
    and l4: "\<not> includes_str '' pushups'' ''log exercise''"
    and l5: "firstBuiltin englishCommands (toLowerCase ''Log exercise pushups'')
               = Some BLogExercise"
    and l6: "''log exercise'' = logExercise englishCommands"
    and l7: "trim '' pushups'' = ''pushups''"
    by code_simp+
  from argument_is_trimmed_remainder [OF l1 l2 l3 l4, of englishCommands repsDocument "[]" "[]"]
    l5 l6
  have c1: "processCommand englishCommands repsDocument [] [] ''Log exercise pushups''
              = Inr [HandleSmartExerciseLogging ''pushups'']"
    unfolding l7 by blast
  have t1: "toLowerCase ''Countdown for 5 minutes'' = [] @ ''countdown for'' @ '' 5 minutes''"
    and t2: "''countdown for'' \<noteq> []"
    and t3: "\<not> includes_str ([] @ butlast ''countdown for'') ''countdown for''"
    and t4: "\<not> includes_str '' 5 minutes'' ''countdown for''"
    and t5: "firstBuiltin countdownCommands (toLowerCase ''Countdown for 5 minutes'')
               = Some BStartTimerFor"
    and t6: "''countdown for'' = startTimerFor countdownCommands"
    and t7: "trim '' 5 minutes'' = ''5 minutes''"
    by code_simp+
  from argument_is_trimmed_remainder [OF t1 t2 t3 t4, of countdownCommands repsDocument "[]" "[]"]
    t5 t6
  have c2: "processCommand countdownCommands repsDocument [] [] ''Countdown for 5 minutes''
              = Inr [HandleTimerForDuration ''5 minutes'']"
    unfolding t7 by blast
  have s1: "toLowerCase ''please set actual reps 12 ''
              = ''please '' @ ''set actual reps'' @ '' 12 ''"
    and s2: "''set actual reps'' \<noteq> []"
    and s3: "\<not> includes_str (''please '' @ butlast ''set actual reps'') ''set actual reps''"
    and s4: "\<not> includes_str '' 12 '' ''set actual reps''"
    and s5: "firstBuiltin englishCommands (toLowerCase ''please set actual reps 12 '')
               = Some BSetActualReps"
    and s6: "''set actual reps'' = setActualReps englishCommands"
    and s7: "trim '' 12 '' = ''12''"
    and s8: "typeElem repsDocument = Some ''reps''" "actualValueElem repsDocument"
    and s9: "typeElem semiDocument = Some ''semi''" "repsElem semiDocument"
    and s10: "setActualRepsFeedback englishCommands @ '' '' @ ''12'' = ''Actual reps set to 12''"
    by code_simp+
  from argument_is_trimmed_remainder [OF s1 s2 s3 s4, of englishCommands repsDocument "[]" "[]"]
    s5 s6 s8
  have c3: "processCommand englishCommands repsDocument [] [] ''please set actual reps 12 ''
       = Inr [SetFieldValue ActualValueField ''12'', SpeakFeedback ''Actual reps set to 12'' None]"
    unfolding s7 s10 by blast
  from argument_is_trimmed_remainder [OF s1 s2 s3 s4, of englishCommands semiDocument "[]" "[]"]
    s5 s6 s9
  have c4: "processCommand englishCommands semiDocument [] [] ''please set actual reps 12 ''
       = Inr [SetFieldValue RepsField ''12'', SpeakFeedback ''Actual reps set to 12'' None]"
    unfolding s7 s10 by blast
  have e1: "toLowerCase ''Log exercise'' = [] @ ''log exercise'' @ []"
    and e3: "\<not> includes_str [] ''log exercise''"
    by code_simp+
  from argument_is_trimmed_remainder [OF e1 l2 l3 e3, of englishCommands repsDocument "[]" "[]"]
  have c5: "argumentAfter (toLowerCase ''Log exercise'') ''log exercise'' = Inr []"
    by blast
  from c1 c2 c3 c4 c5 show ?thesis by blast
qed

text \<open>
  The claim as stated fails: a transcript that contains \<open>log exercise\<close> after an
  earlier built-in phrase fires the earlier built-in, and no argument is passed on.
\<close>

theorem argument_not_passed_counterexample:
  "includes_str (toLowerCase ''stop timer then log exercise pushups'') (logExercise englishCommands)
   \<and> splitAtFirst (logExercise englishCommands) (toLowerCase ''stop timer then log exercise pushups'')
       = Some (''stop timer then '', '' pushups'')
   \<and> processCommand englishCommands repsDocument [] [] ''stop timer then log exercise pushups''
       = Inr [StopTimer, SpeakFeedback ''Timer stopped'' (Some ''stopTimer'')]"
  by code_simp

text \<open>
  C3, as amended. A dispatch that returns performs nothing at all (no action, no
  feedback) in exactly two cases: the first matching built-in is \<open>addEntry\<close> and the
  page has no \<open>addEntry\<close> element; or the first matching built-in is
  \<open>setActualReps\<close>, the argument extraction does not throw, and no field is selected
  (the type is neither \<open>reps\<close> nor \<open>semi\<close>, or the selected element is missing).
\<close>

theorem silent_only_without_page_element:
  "processCommand cmds doc tasks autos t0 = Inr [] \<longleftrightarrow>
     (firstBuiltin cmds (toLowerCase t0) = Some BAddEntry \<and> \<not> addEntryElem doc)
     \<or> (firstBuiltin cmds (toLowerCase t0) = Some BSetActualReps
         \<and> (\<exists>arg. argumentAfter (toLowerCase t0) (setActualReps cmds) = Inr arg)
         \<and> noRepsField doc)"
proof (cases "firstBuiltin cmds (toLowerCase t0)")
  case None
  then have "processCommand cmds doc tasks autos t0 = otherCommands tasks autos (toLowerCase t0)"
    by (simp add: processCommand_eq_dispatch dispatchByPriority_def otherCommands_def
        scanComplexTasks_find Let_def)
  with None show ?thesis by (simp add: otherCommands_not_Nil)
next
  case (Some b)
  then have "processCommand cmds doc tasks autos t0 = runBuiltin cmds doc (toLowerCase t0) b"
    by (simp add: processCommand_eq_dispatch dispatchByPriority_def Let_def)
  with Some show ?thesis by (simp add: runBuiltin_Nil)
qed

theorem silent_only_without_page_element_witness:
  "firstBuiltin englishCommands (toLowerCase ''add entry'') = Some BAddEntry
   \<and> \<not> addEntryElem emptyDocument
   \<and> processCommand englishCommands emptyDocument [] [] ''add entry'' = Inr []
   \<and> processCommand englishCommands repsDocument [] [] ''add entry'' \<noteq> Inr []
   \<and> firstBuiltin englishCommands (toLowerCase ''set actual reps 12'') = Some BSetActualReps
   \<and> argumentAfter (toLowerCase ''set actual reps 12'') (setActualReps englishCommands)
       = Inr ''12''
   \<and> noRepsField timedDocument
   \<and> processCommand englishCommands timedDocument [] [] ''set actual reps 12'' = Inr []
   \<and> processCommand englishCommands repsDocument [] [] ''set actual reps 12'' \<noteq> Inr []"
proof -
  have a: "firstBuiltin englishCommands (toLowerCase ''add entry'') = Some BAddEntry"
    and b: "\<not> addEntryElem emptyDocument"
    and c: "addEntryElem repsDocument"
    and d: "firstBuiltin englishCommands (toLowerCase ''set actual reps 12'') = Some BSetActualReps"
    and e: "argumentAfter (toLowerCase ''set actual reps 12'') (setActualReps englishCommands)
              = Inr ''12''"
    and f: "noRepsField timedDocument"
    and g: "\<not> noRepsField repsDocument"
    by code_simp+
  from silent_only_without_page_element
         [of englishCommands emptyDocument "[]" "[]" "''add entry''"] a b
  have 1: "processCommand englishCommands emptyDocument [] [] ''add entry'' = Inr []"
    by blast
  from silent_only_without_page_element
         [of englishCommands repsDocument "[]" "[]" "''add entry''"] a c
  have 2: "processCommand englishCommands repsDocument [] [] ''add entry'' \<noteq> Inr []"
    by simp
  from silent_only_without_page_element
         [of englishCommands timedDocument "[]" "[]" "''set actual reps 12''"] d e f
  have 3: "processCommand englishCommands timedDocument [] [] ''set actual reps 12'' = Inr []"
    by blast
  from silent_only_without_page_element
         [of englishCommands repsDocument "[]" "[]" "''set actual reps 12''"] d g
  have 4: "processCommand englishCommands repsDocument [] [] ''set actual reps 12'' \<noteq> Inr []"
    by simp
  from a b d e f 1 2 3 4 show ?thesis by blast
qed

text \<open>
  The claim as stated fails: \<open>add entry\<close> on a page without the button is dropped
  with neither an action nor feedback.
\<close>

theorem silent_drop_counterexample:
  "includes_str (toLowerCase ''add entry'') (addEntry englishCommands)
   \<and> processCommand englishCommands emptyDocument [] [] ''add entry'' = Inr []"
  by code_simp

text \<open>
  C6, as amended. A transcript that contains no built-in phrase, for which no complex
  task matches, and for which no automation sequence matches, where every automation
  sequence has a \<open>commands\<close> list, a non-empty \<open>command\<close> or a \<open>name\<close>, produces
  exactly the "not recognized" feedback and no action.
\<close>

theorem unmatched_not_recognized:
  assumes "\<forall>row \<in> set (builtinTable cmds). \<not> includes_str (toLowerCase t0) (fst row)"
      and "\<forall>task \<in> set tasks. \<not> taskMatches (toLowerCase t0) task"
      and "\<forall>a \<in> set autos. hasTrigger a \<and> automationMatches (toLowerCase t0) a \<noteq> Inr True"
  shows "processCommand cmds doc tasks autos t0 = Inr [SpeakFeedback notRecognized None]
         \<and> actionsFired (processCommand cmds doc tasks autos t0) = 0"
proof -
  from assms(1) have "firstBuiltin cmds (toLowerCase t0) = None"
    by (simp only: firstBuiltin_None)
  moreover from assms(2) have "find (taskMatches (toLowerCase t0)) tasks = None"
    by (simp add: find_None_iff)
  moreover from assms(3) have "\<forall>a \<in> set autos. automationMatches (toLowerCase t0) a = Inr False"
    using automationMatches_no_match by blast
  then have "scanAutomationSequences (toLowerCase t0) autos = Inr None"
    by (rule scanAutomationSequences_none)
  ultimately have "processCommand cmds doc tasks autos t0 = Inr [SpeakFeedback notRecognized None]"
    by (simp add: processCommand_eq_dispatch dispatchByPriority_def Let_def)
  then show ?thesis by (simp add: actionsFired_def effectsOf_def)
qed

theorem unmatched_not_recognized_witness:
  "firstBuiltin englishCommands (toLowerCase ''xyzzy'') = None
   \<and> list_all (\<lambda>task. \<not> taskMatches (toLowerCase ''xyzzy'') task) [warmUpTask]
   \<and> list_all (\<lambda>a. hasTrigger a \<and> automationMatches (toLowerCase ''xyzzy'') a \<noteq> Inr True)
        [coolDown]
   \<and> processCommand englishCommands repsDocument [warmUpTask] [coolDown] ''xyzzy''
       = Inr [SpeakFeedback notRecognized None]
   \<and> actionsFired (processCommand englishCommands repsDocument [warmUpTask] [coolDown] ''xyzzy'')
       = 0"
proof -
  have h1: "\<forall>row \<in> set (builtinTable englishCommands).
              \<not> includes_str (toLowerCase ''xyzzy'') (fst row)"
    by code_simp
  have h2: "\<forall>task \<in> set [warmUpTask]. \<not> taskMatches (toLowerCase ''xyzzy'') task"
    by code_simp
  have h3: "\<forall>a \<in> set [coolDown].
              hasTrigger a \<and> automationMatches (toLowerCase ''xyzzy'') a \<noteq> Inr True"
    by code_simp
  from h1 have n: "firstBuiltin englishCommands (toLowerCase ''xyzzy'') = None"
    by (simp only: firstBuiltin_None)
  have l2: "list_all (\<lambda>task. \<not> taskMatches (toLowerCase ''xyzzy'') task) [warmUpTask]"
    by code_simp
  have l3: "list_all (\<lambda>a. hasTrigger a \<and> automationMatches (toLowerCase ''xyzzy'') a \<noteq> Inr True)
              [coolDown]"
    by code_simp
  from unmatched_not_recognized [OF h1 h2 h3, of repsDocument] n l2 l3
  show ?thesis by blast
qed

text \<open>
  The claim as stated fails: nothing matches "xyzzy", yet the test of an automation
  sequence that has neither \<open>commands\<close>, \<open>command\<close> nor \<open>name\<close> throws
  (\<open>automation.name.toLowerCase()\<close> on \<open>undefined\<close>), and no feedback is produced.
\<close>

theorem unnamed_automation_counterexample:
  "firstBuiltin englishCommands (toLowerCase ''xyzzy'') = None
   \<and> list_all (\<lambda>task. \<not> taskMatches (toLowerCase ''xyzzy'') task) [warmUpTask]
   \<and> list_all (\<lambda>a. automationMatches (toLowerCase ''xyzzy'') a \<noteq> Inr True) [unnamedAutomation]
   \<and> processCommand englishCommands repsDocument [warmUpTask] [unnamedAutomation] ''xyzzy''
       = Inl TypeError"
  by code_simp

text \<open>
  C7. The matching tests of step 3 and step 4 differ on the fallback: a complex task's
  \<open>primaryCommand\<close> is compared as it is, an automation sequence's \<open>name\<close> is
  lowercased first. The entry \<open>coolDown\<close> (no \<open>commands\<close>, no \<open>command\<close>,
  \<open>primaryCommand\<close> and \<open>name\<close> both "Cool Down") does not match the transcript
  "cool down" as a complex task and matches it as an automation sequence.
\<close>

theorem fallback_case_differs:
  "taskMatches (toLowerCase ''cool down'') coolDown = False
   \<and> automationMatches (toLowerCase ''cool down'') coolDown = Inr True
   \<and> processCommand englishCommands repsDocument [coolDown] [] ''cool down''
       = Inr [SpeakFeedback notRecognized None]
   \<and> processCommand englishCommands repsDocument [] [coolDown] ''cool down''
       = Inr [ExecuteAutomationSequence coolDown]"
  by code_simp

text \<open>
  C9. The dispatcher lowercases its input itself: \<open>processCommand(t)\<close> and
  \<open>processCommand(t.toLowerCase())\<close> perform the same effects (or throw alike), for
  every phrase table, page, task list, automation list and transcript.
\<close>

theorem processCommand_lowercases:
  "processCommand cmds doc complexTasks automationSequences (toLowerCase t)
     = processCommand cmds doc complexTasks automationSequences t"
  by (simp add: processCommand_def toLowerCase_idem)

text \<open>
  C10. When the transcript contains a non-empty trigger phrase, \<open>split(phrase)\<close> has at
  least two pieces, so \<open>split(phrase)[1]\<close> is defined and \<open>trim\<close> is applied to a
  string: the extraction does not throw.
\<close>

theorem split_index_defined:
  assumes "includes_str transcript phrase" and "phrase \<noteq> []"
  shows "2 \<le> length (split_str transcript phrase)
         \<and> at_index (split_str transcript phrase) 1 = Some (split_str transcript phrase ! 1)
         \<and> argumentAfter transcript phrase = Inr (trim (split_str transcript phrase ! 1))"
  using split_str_two [OF assms] by (simp add: at_index_def argumentAfter_def)

theorem split_index_defined_witness:
  "includes_str ''log exercise pushups'' ''log exercise'' \<and> ''log exercise'' \<noteq> []
   \<and> 2 \<le> length (split_str ''log exercise pushups'' ''log exercise'')
   \<and> argumentAfter ''log exercise pushups'' ''log exercise'' = Inr ''pushups''"
proof -
  have h1: "includes_str ''log exercise pushups'' ''log exercise''" by code_simp
  have h2: "''log exercise'' \<noteq> []" by simp
  have v: "argumentAfter ''log exercise pushups'' ''log exercise'' = Inr ''pushups''"
    by code_simp
  from split_index_defined [OF h1 h2] h1 h2 v show ?thesis by simp
qed

section \<open>Properties of the adapter\<close>

lemma useShim_resources:
  "useShim env sh outcome r = (d, r', evs) \<Longrightarrow>
   audioCtx r' = audioCtx r \<and> mediaStream r' = mediaStream r \<and> processor r' = processor r
   \<and> filter is_resource_event evs = []"
  by (cases outcome) (auto simp: useShim_def fireOnStart_def beep_def)

lemma captureMicrophone_resources:
  assumes "holdsNothing r" and "captureMicrophone env r = (r', evs)"
  shows "filter is_resource_event evs =
           (if audioCtx r' then [OpenAudioContext] else [])
           @ (if mediaStream r' then [OpenMediaStream] else [])
           @ (if processor r' then [CreateProcessor] else [])"
proof (cases "micSetup env")
  case MicLive
  with assms show ?thesis
    by (auto simp: captureMicrophone_def fireOnStart_def beep_def)
next
  case (MicFails stage msg)
  with assms show ?thesis
    by (cases stage)
      (auto simp: captureMicrophone_def micFailure_def holdsNothing_def)
qed

lemma initWhisper_resources:
  "initWhisper env r = (ok, r1) \<Longrightarrow> holdsNothing r1 = holdsNothing r \<and> listening r1 = listening r"
  by (auto simp: initWhisper_def holdsNothing_def split: if_splits)

lemma start_resources:
  assumes "holdsNothing r" and "start env r = (r', evs)"
  shows "filter is_resource_event evs =
           (if audioCtx r' then [OpenAudioContext] else [])
           @ (if mediaStream r' then [OpenMediaStream] else [])
           @ (if processor r' then [CreateProcessor] else [])"
proof (cases "listening r")
  case True
  with assms show ?thesis by (auto simp: start_def holdsNothing_def)
next
  case False
  obtain ok r1 where i: "initWhisper env r = (ok, r1)" by (cases "initWhisper env r")
  from initWhisper_resources [OF i] assms(1) have h1: "holdsNothing r1" by simp
  show ?thesis
  proof (cases ok)
    case True
    with False i assms(2) have "captureMicrophone env r1 = (r', evs)"
      by (simp add: start_def)
    from captureMicrophone_resources [OF h1 this] show ?thesis .
  next
    case nok: False
    obtain d1 r2 evs1 where n: "(case nativeRecognition env of
                   None \<Rightarrow> (False, r1, [])
                 | Some outcome \<Rightarrow> useShim env (Shim NativeShim True) outcome r1) = (d1, r2, evs1)"
      by (metis prod_cases3)
    have n2: "holdsNothing r2 = holdsNothing r1 \<and> filter is_resource_event evs1 = []
              \<and> audioCtx r2 = audioCtx r1 \<and> mediaStream r2 = mediaStream r1
              \<and> processor r2 = processor r1"
      using n useShim_resources
      by (cases "nativeRecognition env") (auto simp: holdsNothing_def)
    obtain d2 r3 evs2 where f: "(case offlineVoice env of
                        None \<Rightarrow> (False, r2, [])
                      | Some outcome \<Rightarrow>
                          useShim env (Shim OfflineShim (offlineHasStop env)) outcome r2)
                    = (d2, r3, evs2)"
      by (metis prod_cases3)
    have f2: "holdsNothing r3 = holdsNothing r2 \<and> filter is_resource_event evs2 = []
              \<and> audioCtx r3 = audioCtx r2 \<and> mediaStream r3 = mediaStream r2
              \<and> processor r3 = processor r2"
      using f useShim_resources
      by (cases "offlineVoice env") (auto simp: holdsNothing_def)
    obtain r4 evs3 where c: "captureMicrophone env r3 = (r4, evs3)"
      by (cases "captureMicrophone env r3")
    from h1 n2 f2 have h3: "holdsNothing r3" by simp
    note c3 = captureMicrophone_resources [OF h3 c]
    have "(r', evs) = (if d1 then (r2, evs1) else if d2 then (r3, evs1 @ evs2)
                       else (r4, evs1 @ evs2 @ evs3))"
    proof (cases d1)
      case True
      with False i nok n assms(2) show ?thesis by (simp add: start_def)
    next
      case nd1: False
      show ?thesis
      proof (cases d2)
        case True
        with nd1 False i nok n f assms(2) show ?thesis by (simp add: start_def)
      next
        case nd2: False
        with nd1 False i nok n f c assms(2) show ?thesis by (simp add: start_def)
      qed
    qed
    with n2 f2 c3 h1 show ?thesis
      by (auto simp: holdsNothing_def split: if_splits)
  qed
qed

lemma stop_resources:
  "filter is_resource_event (snd (stop r)) =
     (if processor r then [DisconnectProcessor] else [])
     @ (if audioCtx r then [CloseAudioContext] else [])
     @ (if mediaStream r then [StopTracks] else [])"
  by (simp add: stop_def split: option.splits)

lemma stop_holdsNothing: "holdsNothing (fst (stop r))"
  by (simp add: stop_def holdsNothing_def)

lemma count_resource_event:
  "is_resource_event x \<Longrightarrow> count_list evs x = count_list (filter is_resource_event evs) x"
  by (induction evs) auto

lemma balanced_filter:
  "balanced evs = balanced (filter is_resource_event evs)"
  unfolding balanced_def
  by (simp add: count_resource_event [symmetric])

lemma balanced_append: "balanced xs \<Longrightarrow> balanced ys \<Longrightarrow> balanced (xs @ ys)"
  by (simp add: balanced_def)

lemma start_stop_balanced:
  assumes "holdsNothing r"
  shows "balanced (snd (start env r) @ snd (stop (fst (start env r))))"
proof -
  obtain r' evs where s: "start env r = (r', evs)" by (cases "start env r")
  from start_resources [OF assms s] stop_resources [of r']
  have "balanced (filter is_resource_event (evs @ snd (stop r')))"
    by (simp add: balanced_def)
  then have "balanced (evs @ snd (stop r'))"
    by (subst balanced_filter)
  with s show ?thesis by simp
qed

lemma completed_cycles_clean:
  "holdsNothing r \<Longrightarrow> holdsNothing (fst (completedCycles envs r)) \<and> balanced (snd (completedCycles envs r))"
proof (induction envs arbitrary: r)
  case Nil
  then show ?case by (simp add: balanced_def)
next
  case (Cons env envs)
  obtain r1 evs1 where s: "start env r = (r1, evs1)" by (cases "start env r")
  obtain r2 evs2 where t: "stop r1 = (r2, evs2)" by (cases "stop r1")
  obtain r3 evs3 where c: "completedCycles envs r2 = (r3, evs3)" by (cases "completedCycles envs r2")
  from stop_holdsNothing [of r1] t have h2: "holdsNothing r2" by simp
  from Cons.IH [OF h2] c have ih: "holdsNothing r3" "balanced evs3" by simp_all
  from start_stop_balanced [OF Cons.prems, of env] s t have "balanced (evs1 @ evs2)" by simp
  from this ih(2) have "balanced ((evs1 @ evs2) @ evs3)" by (rule balanced_append)
  with s t c ih(1) show ?case by simp
qed

lemma stop_twice_state: "fst (stop (fst (stop r))) = fst (stop r)"
  by (simp add: stop_def)

lemma stop_twice_events: "filter is_resource_event (snd (stop (fst (stop r)))) = []"
  by (simp add: stop_resources) (simp add: stop_def)

lemma start_shimConsistent: "shimConsistent r \<Longrightarrow> shimConsistent (fst (start env r))"
  by (auto simp: start_def shimConsistent_def initWhisper_def useShim_def captureMicrophone_def
      micFailure_def Let_def
      split: option.splits fallback_outcome.splits mic_outcome.splits mic_stage.splits prod.splits
        if_splits)

lemma stop_shimConsistent: "shimConsistent r \<Longrightarrow> shimConsistent (fst (stop r))"
  by (auto simp: stop_def shimConsistent_def split: option.splits)

text \<open>
  What \<open>stop\<close> does by itself, and what holds when no call overlaps another. From
  every state of the recognizer, \<open>stop\<close> leaves no processor, audio context or media
  stream behind and sets \<open>listening\<close> to false; each resource that was held is released,
  the fallback shim in use is stopped when it has a \<open>stop\<close> method, and \<open>onend\<close> is
  called exactly once, last, whenever a handler is installed. \<open>abort\<close> is \<open>stop\<close>.
  A second \<open>stop\<close> leaves the state as it is and releases nothing. Cycles in which
  \<open>start\<close> has finished before \<open>stop\<close> is called release what they open.
\<close>

lemma stop_releases_everything:
  "holdsNothing (fst (stop r)) \<and> \<not> listening (fst (stop r))
   \<and> (processor r \<longrightarrow> DisconnectProcessor \<in> set (snd (stop r)))
   \<and> (audioCtx r \<longrightarrow> CloseAudioContext \<in> set (snd (stop r)))
   \<and> (mediaStream r \<longrightarrow> StopTracks \<in> set (snd (stop r)))
   \<and> (usingFallback r \<and> fallbackShim r = Some sh \<and> has_stop sh
        \<longrightarrow> ShimStop sh \<in> set (snd (stop r)))
   \<and> (onend r \<longrightarrow> count_list (snd (stop r)) CallOnEnd = 1 \<and> last (snd (stop r)) = CallOnEnd)
   \<and> abort r = stop r
   \<and> fst (stop (fst (stop r))) = fst (stop r)
   \<and> filter is_resource_event (snd (stop (fst (stop r)))) = []
   \<and> (holdsNothing r0 \<longrightarrow>
        holdsNothing (fst (completedCycles envs r0)) \<and> balanced (snd (completedCycles envs r0)))"
proof (intro conjI impI)
  show "holdsNothing (fst (stop r))" by (rule stop_holdsNothing)
  show "\<not> listening (fst (stop r))" by (simp add: stop_def)
  show "DisconnectProcessor \<in> set (snd (stop r))" if "processor r"
    using that by (simp add: stop_def)
  show "CloseAudioContext \<in> set (snd (stop r))" if "audioCtx r"
    using that by (simp add: stop_def)
  show "StopTracks \<in> set (snd (stop r))" if "mediaStream r"
    using that by (simp add: stop_def)
  show "ShimStop sh \<in> set (snd (stop r))"
    if "usingFallback r \<and> fallbackShim r = Some sh \<and> has_stop sh"
    using that by (simp add: stop_def)
  show "count_list (snd (stop r)) CallOnEnd = 1" if "onend r"
    using that by (simp add: stop_def split: option.splits)
  show "last (snd (stop r)) = CallOnEnd" if "onend r"
    using that by (simp add: stop_def)
  show "abort r = stop r" by (simp add: abort_def)
  show "fst (stop (fst (stop r))) = fst (stop r)" by (rule stop_twice_state)
  show "filter is_resource_event (snd (stop (fst (stop r)))) = []" by (rule stop_twice_events)
  show "holdsNothing (fst (completedCycles envs r0))" if "holdsNothing r0"
    using completed_cycles_clean [OF that] by simp
  show "balanced (snd (completedCycles envs r0))" if "holdsNothing r0"
    using completed_cycles_clean [OF that] by simp
qed

lemma openAudioContext_then_afterUserMedia:
  "openAudioContext env r = (r1, evs1, Some p) \<Longrightarrow>
   afterUserMedia env nullMsg r1 = (r2, evs2) \<Longrightarrow>
   captureMicrophone env r = (r2, evs1 @ evs2)"
  by (cases "micSetup env")
    (auto simp: openAudioContext_def afterUserMedia_def captureMicrophone_def micFailure_def
      caught_def fireOnStart_def split: mic_stage.splits if_splits)

lemma openAudioContext_done:
  "openAudioContext env r = (r1, evs1, None) \<Longrightarrow> captureMicrophone env r = (r1, evs1)"
  by (cases "micSetup env")
    (auto simp: openAudioContext_def captureMicrophone_def micFailure_def caught_def
      split: mic_stage.splits if_splits)

lemma openAudioContext_pending:
  "openAudioContext env r = (r1, evs1, Some p) \<Longrightarrow> p = AwaitUserMedia"
  by (cases "micSetup env")
    (auto simp: openAudioContext_def caught_def split: if_splits)

lemma capture_in_segments:
  "captureMicrophone env r =
     (case openAudioContext env r of
        (r1, evs1, None) \<Rightarrow> (r1, evs1)
      | (r1, evs1, Some p) \<Rightarrow>
          (case afterUserMedia env nullMsg r1 of (r2, evs2) \<Rightarrow> (r2, evs1 @ evs2)))"
proof -
  obtain r1 evs1 nxt where a: "openAudioContext env r = (r1, evs1, nxt)"
    by (metis prod_cases3)
  show ?thesis
  proof (cases nxt)
    case None
    with a openAudioContext_done [of env r r1 evs1] show ?thesis by simp
  next
    case (Some p)
    obtain r2 evs2 where u: "afterUserMedia env nullMsg r1 = (r2, evs2)"
      by (cases "afterUserMedia env nullMsg r1")
    with a Some openAudioContext_then_afterUserMedia [of env r r1 evs1 p nullMsg r2 evs2]
    show ?thesis by simp
  qed
qed

lemma afterInit_done:
  assumes "\<not> listening r" and "afterInit env (moduleLoaded r) r = (r1, evs1, None)"
  shows "start env r = (r1, evs1)"
  using assms
  by (auto simp: start_def initWhisper_def afterInit_def Let_def
      capture_in_segments [where nullMsg = None]
      split: prod.splits if_splits)

lemma afterInit_pending:
  assumes "\<not> listening r" and "afterInit env (moduleLoaded r) r = (r1, evs1, Some p)"
      and "afterUserMedia env nullMsg r1 = (r2, evs2)"
  shows "p = AwaitUserMedia \<and> start env r = (r2, evs1 @ evs2)"
  using assms
  by (auto simp: start_def initWhisper_def afterInit_def Let_def
      capture_in_segments [where nullMsg = nullMsg]
      split: prod.splits if_splits dest: openAudioContext_pending)

lemma start_in_segments:
  assumes "pendingStarts s = []"
  shows "run env nullMsg [StartCalled, Resumed 0, Resumed 0] s
           = s\<lparr>recognizerState := fst (start env (recognizerState s)),
                trace := trace s @ snd (start env (recognizerState s))\<rparr>"
proof (cases "listening (recognizerState s)")
  case True
  with assms show ?thesis
    by (simp add: doStep_def startCall_def start_def)
next
  case False
  obtain r1 evs1 nxt where a: "afterInit env (moduleLoaded (recognizerState s)) (recognizerState s)
      = (r1, evs1, nxt)"
    by (metis prod_cases3)
  show ?thesis
  proof (cases nxt)
    case None
    with afterInit_done [OF False] a have "start env (recognizerState s) = (r1, evs1)" by simp
    with assms False a None show ?thesis
      by (simp add: doStep_def startCall_def resume_def)
  next
    case (Some p)
    obtain r2 evs2 where u: "afterUserMedia env nullMsg r1 = (r2, evs2)"
      by (cases "afterUserMedia env nullMsg r1")
    from afterInit_pending [OF False _ u] a Some
    have "p = AwaitUserMedia" and "start env (recognizerState s) = (r2, evs1 @ evs2)"
      by simp_all
    with assms False a Some u show ?thesis
      by (simp add: doStep_def startCall_def resume_def)
  qed
qed

lemma stop_between_segments_leaves_stream:
  "trace (run engineLoads None [StartCalled, Resumed 0, StopCalled, Resumed 0] (idle installed))
     = [OpenAudioContext, CloseAudioContext, CallOnEnd, OpenMediaStream,
        CallOnError ''mic-initialization-failed'']
   \<and> mediaStream (recognizerState
        (run engineLoads None [StartCalled, Resumed 0, StopCalled, Resumed 0] (idle installed)))"
  by code_simp

text \<open>
  C5. \<open>stop\<close> does not release what a call of \<open>start\<close> that has not finished goes on
  to acquire. After \<open>start(); stop()\<close> with the first call still suspended at its
  \<open>await\<close>, \<open>stop\<close> finds nothing to release and calls \<open>onend\<close>; the suspended
  call then resumes, opens the audio context, the stream and the processor and sets
  \<open>listening\<close>. After \<open>start(); stop(); start(); stop()\<close> both calls of \<open>start\<close>
  resume, the second overwrites the fields of the first, and a final \<open>stop\<close> releases
  one context, one stream and one processor of the two that were opened.
\<close>

theorem stop_during_pending_start:
  "pendingStarts (run engineLoads None [StartCalled, StopCalled] (idle installed))
     = [AwaitInit False]
   \<and> trace (run engineLoads None [StartCalled, StopCalled] (idle installed)) = [CallOnEnd]
   \<and> trace (run engineLoads None [StartCalled, StopCalled, Resumed 0, Resumed 0] (idle installed))
       = [CallOnEnd, OpenAudioContext, OpenMediaStream, CreateProcessor, CallOnStart]
   \<and> listening (recognizerState
        (run engineLoads None [StartCalled, StopCalled, Resumed 0, Resumed 0] (idle installed)))
   \<and> \<not> holdsNothing (recognizerState
        (run engineLoads None [StartCalled, StopCalled, Resumed 0, Resumed 0] (idle installed)))
   \<and> trace (run engineLoads None
        [StartCalled, StopCalled, StartCalled, StopCalled,
         Resumed 0, Resumed 1, Resumed 0, Resumed 0, StopCalled] (idle installed))
       = [CallOnEnd, CallOnEnd, OpenAudioContext, OpenAudioContext,
          OpenMediaStream, CreateProcessor, CallOnStart,
          OpenMediaStream, CreateProcessor, CallOnStart,
          DisconnectProcessor, CloseAudioContext, StopTracks, CallOnEnd]
   \<and> \<not> balanced (trace (run engineLoads None
        [StartCalled, StopCalled, StartCalled, StopCalled,
         Resumed 0, Resumed 1, Resumed 0, Resumed 0, StopCalled] (idle installed)))"
  by code_simp

text \<open>
  C4. When the engine does not load and neither a native recognizer nor an offline
  simulation can be started, \<open>start\<close> does not stop with an error: control falls out
  of the fallback block into the microphone set-up, which opens the audio context and
  the stream, sets \<open>listening\<close> and calls \<open>onstart\<close>; \<open>onerror\<close> is not called.
\<close>

theorem all_strategies_fail_starts_capture:
  "start nothingWorks installed
     = (installed\<lparr>audioCtx := True, mediaStream := True, processor := True, listening := True\<rparr>,
        [OpenAudioContext, OpenMediaStream, CreateProcessor, CallOnStart])
   \<and> listening (fst (start nothingWorks installed))
   \<and> filter is_error_call (snd (start nothingWorks installed)) = []
   \<and> listening (fst (start fallbacksThrow installed))
   \<and> filter is_error_call (snd (start fallbacksThrow installed)) = []"
  by code_simp

lemma fallbacks_exhausted_capture:
  assumes "\<not> listening r" and "\<not> moduleLoaded r" and "\<not> whisperLoads env"
      and "nativeRecognition env \<noteq> Some Starts" and "offlineVoice env \<noteq> Some Starts"
      and "micSetup env = MicLive"
  shows "listening (fst (start env r)) \<and> filter is_error_call (snd (start env r)) = []
         \<and> OpenMediaStream \<in> set (snd (start env r))"
  using assms
  by (auto simp: start_def initWhisper_def useShim_def captureMicrophone_def fireOnStart_def
      beep_def Let_def split: option.splits fallback_outcome.splits)

lemma fallbacks_exhausted_mic_fails:
  assumes "\<not> listening r" and "\<not> moduleLoaded r" and "\<not> whisperLoads env"
      and "nativeRecognition env \<noteq> Some Starts" and "offlineVoice env \<noteq> Some Starts"
      and "micSetup env = MicFails stage msg" and "onerror r"
  shows "\<not> listening (fst (start env r))
         \<and> filter is_error_call (snd (start env r)) = [CallOnError (errorText msg)]"
  using assms
  by (cases stage)
    (auto simp: start_def initWhisper_def useShim_def captureMicrophone_def fireOnStart_def
      micFailure_def beep_def Let_def split: option.splits fallback_outcome.splits)

text \<open>
  C8, as amended. The two entry points treat a start during a running session
  differently. \<open>start\<close> of the shim is a no-op: state unchanged, no callback, nothing
  opened or stopped. \<open>startWhisperRecognition\<close> stops the running recording
  (\<open>mediaRecorder.stop()\<close>, \<open>isRecording = false\<close>) and returns without starting a
  new one.
\<close>

theorem start_while_listening_policies:
  "(listening r \<longrightarrow> start env r = (r, []))
   \<and> (isRecording m \<and> mediaRecorder m \<longrightarrow>
        \<not> isRecording (fst (startWhisperRecognition menv m))
        \<and> count_list (snd (startWhisperRecognition menv m)) MediaRecorderStop = 1
        \<and> count_list (snd (startWhisperRecognition menv m)) MediaRecorderStart = 0)
   \<and> (isRecording m \<and> mediaRecorder m \<and> whisper m \<longrightarrow>
        startWhisperRecognition menv m = (m\<lparr>isRecording := False\<rparr>, [MediaRecorderStop]))"
  by (auto simp: start_def startWhisperRecognition_def stopWhisperRecognition_def
      initializeWhisper_def split: init_outcome.splits)

theorem start_while_listening_policies_witness:
  "listening liveRecognizer
   \<and> start nothingWorks liveRecognizer = (liveRecognizer, [])
   \<and> isRecording recordingModule \<and> mediaRecorder recordingModule \<and> whisper recordingModule
   \<and> startWhisperRecognition micWorks recordingModule
       = (recordingModule\<lparr>isRecording := False\<rparr>, [MediaRecorderStop])"
proof -
  have h: "listening liveRecognizer" "isRecording recordingModule"
    "mediaRecorder recordingModule" "whisper recordingModule"
    by code_simp+
  from start_while_listening_policies [of liveRecognizer nothingWorks recordingModule micWorks] h
  show ?thesis by blast
qed

text \<open>
  The claim as stated fails: with both sessions running, the shim's \<open>start\<close> changes
  nothing and keeps listening, while \<open>startWhisperRecognition\<close> stops the recorder.
\<close>

theorem start_policies_differ_counterexample:
  "listening liveRecognizer \<and> isRecording recordingModule
   \<and> fst (start nothingWorks liveRecognizer) = liveRecognizer
   \<and> snd (start nothingWorks liveRecognizer) = []
   \<and> listening (fst (start nothingWorks liveRecognizer))
   \<and> fst (startWhisperRecognition micWorks recordingModule) \<noteq> recordingModule
   \<and> snd (startWhisperRecognition micWorks recordingModule) = [MediaRecorderStop]
   \<and> \<not> isRecording (fst (startWhisperRecognition micWorks recordingModule))"
  by code_simp

end
